theory Spec2Isabelle
  imports Main "HOL-Library.Word" "HOL-Library.Sublist"
begin

section \<open>QueueSync: the Coordinator and the Worker over a model of stream sockets\<close>

text \<open>
  The repository has two classes. \<open>Coordinator\<close> (src/src/coordinator.py) accepts
  connections, puts each one into a \<open>queue.Queue\<close> and serves the queue in one loop.
  \<open>Worker\<close> (src/src/worker.py) connects, sends one request per query and reads the answer.
  Both talk to Python's \<open>socket\<close>, \<open>queue\<close> and \<open>print\<close>; these are modelled below as
  operations on an explicit world, so that every raise and every call that waits for ever is
  a value of the model.
\<close>

subsection \<open>Values\<close>

type_synonym bytes = "8 word list"
type_synonym address = "string \<times> int"
type_synonym fd = nat

text \<open>
  \<open>SocketError\<close> is \<open>socket.error\<close> (an alias of \<open>OSError\<close>), the only exception the Worker
  catches. \<open>ValueError\<close> is what \<open>Queue.task_done\<close> raises when it is called more often than
  entries were put. \<open>OtherError\<close> stands for every other exception (a Handler may raise
  anything; \<open>None.send\<close> is an \<open>AttributeError\<close>).
\<close>

datatype exn = SocketError | ValueError | OtherError

text \<open>A call returns, raises, or waits for ever in one of the blocking calls (there are no timeouts).\<close>

datatype blocking_call = In_get | In_recv | In_send | In_accept

datatype 'a outcome = Returns 'a | Raises exn | Blocks blocking_call

text \<open>The status messages of \<open>display_update\<close>, one constructor per f-string of the source.\<close>

datatype update =
    Request_added address
  | Processing_request address
  | Closed_connection address
  | Coordinator_listening string int
  | Accepted_connection address
  | Querying
  | Waiting_for_response
  | Response_received
  | Error_during_communication exn
  | Connected_to_server string int
  | Connection_error exn
  | Connection_closed

text \<open>The calls made on sockets, on the queue and on the Handler, in the order they happen.\<close>

datatype event =
    Socket_call fd
  | Bind_call fd address
  | Listen_call fd int
  | Connect_call fd address
  | Accept_call fd
  | Recv_call fd nat
  | Send_call fd bytes
  | Close_call fd
  | Put_call fd address
  | Get_call fd address
  | Task_done_call
  | Handler_call fd address bytes
  | Thread_process_requests

subsection \<open>Stream sockets\<close>

text \<open>
  A socket object. \<open>inbox\<close> holds the bytes that have arrived and were not read yet,
  \<open>outbox\<close> the bytes the transport has accepted from \<open>send\<close> so far, \<open>bound\<close> the address
  the socket was bound to. \<open>peer\<close> is the other end
  of the connection when that end is a socket of this world. \<open>peer_closed\<close> says that the other
  end has closed (a read of an empty inbox then gives \<open>b''\<close>), \<open>broken\<close> that the connection
  has failed (reset): \<open>send\<close> and \<open>recv\<close> raise.
\<close>

record sock =
  is_open :: bool
  peer :: "fd option"
  inbox :: bytes
  peer_closed :: bool
  broken :: bool
  outbox :: bytes
  bound :: "address option"

text \<open>
  The world: the socket objects by descriptor, the next free descriptor and the limit at which
  \<open>socket.socket()\<close> and \<open>accept\<close> fail, how many bytes the transport takes from one \<open>send\<close>
  on each socket, what the listening socket will meet on its next \<open>accept\<close> calls (an error, or
  a client at an address, with the client's socket when it is in this world), the addresses
  with a listening server, what has been printed, and the calls made so far.
\<close>

record world =
  socks :: "fd \<Rightarrow> sock"
  next_fd :: fd
  fd_limit :: nat
  send_room :: "fd \<Rightarrow> nat"
  arrivals :: "(exn + address \<times> fd option) list"
  listening :: "address list"
  stdout :: "update list"
  calls :: "event list"

definition new_sock :: sock where
  "new_sock = \<lparr>is_open = True, peer = None, inbox = [], peer_closed = False,
               broken = False, outbox = [], bound = None\<rparr>"

definition log :: "event \<Rightarrow> world \<Rightarrow> world" where
  "log e w = w\<lparr>calls := calls w @ [e]\<rparr>"

definition set_sock :: "fd \<Rightarrow> sock \<Rightarrow> world \<Rightarrow> world" where
  "set_sock s v w = w\<lparr>socks := (socks w)(s := v)\<rparr>"

text \<open>\<open>print(message)\<close>.\<close>

definition print :: "update \<Rightarrow> world \<Rightarrow> world" where
  "print m w = w\<lparr>stdout := stdout w @ [m]\<rparr>"

text \<open>\<open>socket.socket()\<close>: a new socket object, or \<open>OSError\<close> when no descriptor is left.\<close>

definition sock_socket :: "world \<Rightarrow> fd outcome \<times> world" where
  "sock_socket w =
     (if next_fd w < fd_limit w
      then (Returns (next_fd w),
            log (Socket_call (next_fd w))
              ((set_sock (next_fd w) new_sock w)\<lparr>next_fd := Suc (next_fd w)\<rparr>))
      else (Raises SocketError, w))"

text \<open>
  \<open>s.send(data)\<close>: raises on a closed or broken socket; otherwise the transport takes the first
  \<open>send_room\<close> bytes of \<open>data\<close> (all of it when there is room), they reach the peer's inbox, and
  the number of bytes taken is returned. Python's \<open>send\<close> makes one attempt and leaves the rest
  to the caller (\<open>sendall\<close> is the call that repeats it). With no room at all the call waits.
\<close>

definition deliver :: "fd option \<Rightarrow> bytes \<Rightarrow> world \<Rightarrow> world" where
  "deliver p bs w =
     (case p of
        None \<Rightarrow> w
      | Some q \<Rightarrow> set_sock q ((socks w q)\<lparr>inbox := inbox (socks w q) @ bs\<rparr>) w)"

definition sock_send :: "fd \<Rightarrow> bytes \<Rightarrow> world \<Rightarrow> nat outcome \<times> world" where
  "sock_send s data w0 =
     (let w = log (Send_call s data) w0; v = socks w s in
      if is_open v then
        if broken v then (Raises SocketError, w)
        else if data = [] then (Returns 0, w)
        else if send_room w s = 0 then (Blocks In_send, w)
        else
          (let taken = take (send_room w s) data
           in (Returns (length taken),
               deliver (peer v) taken (set_sock s (v\<lparr>outbox := outbox v @ taken\<rparr>) w)))
      else (Raises SocketError, w))"

text \<open>
  \<open>s.recv(bufsize)\<close>: raises on a closed or broken socket; returns at most \<open>bufsize\<close> of the
  bytes that have arrived; returns \<open>b''\<close> when nothing has arrived and the peer has closed; and
  waits when nothing has arrived and the peer is still there.
\<close>

definition sock_recv :: "fd \<Rightarrow> nat \<Rightarrow> world \<Rightarrow> bytes outcome \<times> world" where
  "sock_recv s bufsize w0 =
     (let w = log (Recv_call s bufsize) w0; v = socks w s in
      if is_open v then
        if broken v then (Raises SocketError, w)
        else if inbox v = [] then
          (if peer_closed v then (Returns [], w) else (Blocks In_recv, w))
        else (Returns (take bufsize (inbox v)),
              set_sock s (v\<lparr>inbox := drop bufsize (inbox v)\<rparr>) w)
      else (Raises SocketError, w))"

text \<open>\<open>s.close()\<close> never raises; the peer sees the end of the stream.\<close>

definition notify_closed :: "fd option \<Rightarrow> world \<Rightarrow> world" where
  "notify_closed p w =
     (case p of
        None \<Rightarrow> w
      | Some q \<Rightarrow> set_sock q ((socks w q)\<lparr>peer_closed := True\<rparr>) w)"

definition sock_close :: "fd \<Rightarrow> world \<Rightarrow> world" where
  "sock_close s w0 =
     (let w = log (Close_call s) w0; v = socks w s
      in notify_closed (peer v) (set_sock s (v\<lparr>is_open := False\<rparr>) w))"

text \<open>\<open>s.connect(address)\<close>: refused (an \<open>OSError\<close>) unless a server listens at the address.\<close>

definition sock_connect :: "fd \<Rightarrow> address \<Rightarrow> world \<Rightarrow> unit outcome \<times> world" where
  "sock_connect s a w0 =
     (let w = log (Connect_call s a) w0 in
      if a \<in> set (listening w) then (Returns (), w) else (Raises SocketError, w))"

text \<open>
  \<open>s.bind(address)\<close> raises (address in use) when a server listens there already;
  \<open>s.listen(backlog)\<close> makes the bound address one that clients can connect to.
\<close>

definition sock_bind :: "fd \<Rightarrow> address \<Rightarrow> world \<Rightarrow> unit outcome \<times> world" where
  "sock_bind s a w0 =
     (let w = log (Bind_call s a) w0 in
      if a \<in> set (listening w) then (Raises SocketError, w)
      else (Returns (), set_sock s ((socks w s)\<lparr>bound := Some a\<rparr>) w))"

definition sock_listen :: "fd \<Rightarrow> int \<Rightarrow> world \<Rightarrow> world" where
  "sock_listen s backlog w0 =
     (let w = log (Listen_call s backlog) w0 in
      case bound (socks w s) of
        None \<Rightarrow> w
      | Some a \<Rightarrow> w\<lparr>listening := a # listening w\<rparr>)"

text \<open>
  \<open>server_socket.accept()\<close>: waits when no client is arriving; raises what the arrival is when
  it is an error, or when no descriptor is left (the client then stays in the backlog);
  otherwise makes the socket of the connection,
  holding what the client has sent already, and returns it with the client's address.
\<close>

definition sock_accept :: "world \<Rightarrow> (fd \<times> address) outcome \<times> world" where
  "sock_accept w =
     (case arrivals w of
        [] \<Rightarrow> (Blocks In_accept, w)
      | Inl e # rest \<Rightarrow> (Raises e, w\<lparr>arrivals := rest\<rparr>)
      | Inr (a, client) # rest \<Rightarrow>
          (if next_fd w < fd_limit w then
             (let s = next_fd w;
                  sent = (case client of None \<Rightarrow> [] | Some c \<Rightarrow> outbox (socks w c));
                  w1 = set_sock s (new_sock\<lparr>peer := client, inbox := sent\<rparr>)
                         (w\<lparr>arrivals := rest, next_fd := Suc s\<rparr>);
                  w2 = (case client of
                          None \<Rightarrow> w1
                        | Some c \<Rightarrow> set_sock c ((socks w1 c)\<lparr>peer := Some s\<rparr>) w1)
              in (Returns (s, a), log (Accept_call s) w2))
           else (Raises SocketError, w)))"

subsection \<open>queue.Queue\<close>

text \<open>
  The unbounded FIFO of the standard library: \<open>put\<close> appends and counts an unfinished task,
  \<open>get\<close> takes the oldest entry (and waits when there is none), \<open>task_done\<close> counts one task
  as finished and raises \<open>ValueError\<close> when none is unfinished.
\<close>

record 'a queue =
  items :: "'a list"
  unfinished_tasks :: nat

definition Queue :: "'a queue" where
  "Queue = \<lparr>items = [], unfinished_tasks = 0\<rparr>"

definition put :: "'a \<Rightarrow> 'a queue \<Rightarrow> 'a queue" where
  "put x q = q\<lparr>items := items q @ [x], unfinished_tasks := Suc (unfinished_tasks q)\<rparr>"

definition get :: "'a queue \<Rightarrow> ('a \<times> 'a queue) option" where
  "get q = (case items q of [] \<Rightarrow> None | x # rest \<Rightarrow> Some (x, q\<lparr>items := rest\<rparr>))"

definition task_done :: "'a queue \<Rightarrow> exn + 'a queue" where
  "task_done q =
     (case unfinished_tasks q of
        0 \<Rightarrow> Inl ValueError
      | Suc n \<Rightarrow> Inr (q\<lparr>unfinished_tasks := n\<rparr>))"

subsection \<open>Coordinator\<close>

record coordinator =
  host :: string
  port :: int
  max_num_of_clients :: int
  are_updates_displayed :: bool
  request_queue :: "(fd \<times> address) queue"

text \<open>
  \<open>handle_request\<close> is abstract: a Handler takes the socket, the address and the bytes
  received, and returns the response or raises.
\<close>

type_synonym handler = "fd \<Rightarrow> address \<Rightarrow> bytes \<Rightarrow> exn + bytes"

definition Coordinator :: "string \<Rightarrow> int \<Rightarrow> int \<Rightarrow> bool \<Rightarrow> coordinator" where
  "Coordinator h p n d =
     \<lparr>host = h, port = p, max_num_of_clients = n, are_updates_displayed = d,
      request_queue = Queue\<rparr>"

definition display_update :: "coordinator \<Rightarrow> update \<Rightarrow> world \<Rightarrow> world" where
  "display_update self message w = (if are_updates_displayed self then print message w else w)"

definition queue_client_request ::
  "coordinator \<Rightarrow> fd \<Rightarrow> address \<Rightarrow> world \<Rightarrow> coordinator \<times> world" where
  "queue_client_request self client_socket client_address w =
     (let self1 = self\<lparr>request_queue := put (client_socket, client_address) (request_queue self)\<rparr>;
          w1 = log (Put_call client_socket client_address) w
      in (self1, display_update self1 (Request_added client_address) w1))"

text \<open>The body of the \<open>try\<close> in \<open>process_requests\<close>: read, handle, write.\<close>

definition process_requests_try ::
  "handler \<Rightarrow> fd \<Rightarrow> address \<Rightarrow> world \<Rightarrow> unit outcome \<times> world" where
  "process_requests_try handle_request client_socket client_address w =
     (case sock_recv client_socket 1024 w of
        (Raises e, w1) \<Rightarrow> (Raises e, w1)
      | (Blocks b, w1) \<Rightarrow> (Blocks b, w1)
      | (Returns received_data, w1) \<Rightarrow>
          (let w2 = log (Handler_call client_socket client_address received_data) w1 in
           case handle_request client_socket client_address received_data of
             Inl e \<Rightarrow> (Raises e, w2)
           | Inr response \<Rightarrow>
               (case sock_send client_socket response w2 of
                  (Raises e, w3) \<Rightarrow> (Raises e, w3)
                | (Blocks b, w3) \<Rightarrow> (Blocks b, w3)
                | (Returns n, w3) \<Rightarrow> (Returns (), w3))))"

text \<open>The \<open>finally\<close> block: close, report, mark the queue entry done.\<close>

definition process_requests_finally ::
  "coordinator \<Rightarrow> fd \<Rightarrow> address \<Rightarrow> world \<Rightarrow> unit outcome \<times> coordinator \<times> world" where
  "process_requests_finally self client_socket client_address w =
     (let w1 = sock_close client_socket w;
          w2 = display_update self (Closed_connection client_address) w1
      in case task_done (request_queue self) of
           Inl e \<Rightarrow> (Raises e, self, w2)
         | Inr q \<Rightarrow> (Returns (), self\<lparr>request_queue := q\<rparr>, log Task_done_call w2))"

text \<open>
  One turn of the \<open>while True\<close> loop after the \<open>get\<close>: \<open>try ... finally\<close> has no \<open>except\<close>
  clause, so an exception of the body is raised again once the \<open>finally\<close> block has run (and
  an exception of the \<open>finally\<close> block replaces it). A body that waits for ever never reaches
  the \<open>finally\<close> block.
\<close>

definition process_requests_turn ::
  "handler \<Rightarrow> coordinator \<Rightarrow> fd \<Rightarrow> address \<Rightarrow> world \<Rightarrow> unit outcome \<times> coordinator \<times> world" where
  "process_requests_turn handle_request self client_socket client_address w =
     (let w1 = display_update self (Processing_request client_address) w in
      case process_requests_try handle_request client_socket client_address w1 of
        (Blocks b, w2) \<Rightarrow> (Blocks b, self, w2)
      | (Raises e, w2) \<Rightarrow>
          (case process_requests_finally self client_socket client_address w2 of
             (Returns u, self3, w3) \<Rightarrow> (Raises e, self3, w3)
           | other \<Rightarrow> other)
      | (Returns u, w2) \<Rightarrow> process_requests_finally self client_socket client_address w2)"

lemma process_requests_finally_items:
  "process_requests_finally self s a w = (r, self', w') \<Longrightarrow>
     items (request_queue self') = items (request_queue self)"
  by (auto simp: process_requests_finally_def task_done_def Let_def
           split: sum.splits nat.splits)

lemma process_requests_turn_items:
  "process_requests_turn h self s a w = (r, self', w') \<Longrightarrow>
     items (request_queue self') = items (request_queue self)"
  by (auto simp: process_requests_turn_def Let_def
           split: prod.splits outcome.splits dest: process_requests_finally_items)

text \<open>
  \<open>process_requests\<close>: the loop takes the oldest entry and serves it, for ever. It never
  returns: it ends by an exception that leaves a turn, or it waits (in \<open>get\<close> once the queue
  is empty, or inside a turn).
\<close>

function process_requests ::
  "handler \<Rightarrow> coordinator \<Rightarrow> world \<Rightarrow> unit outcome \<times> coordinator \<times> world" where
  "process_requests handle_request self w =
     (case get (request_queue self) of
        None \<Rightarrow> (Blocks In_get, self, w)
      | Some ((client_socket, client_address), q) \<Rightarrow>
          (case process_requests_turn handle_request (self\<lparr>request_queue := q\<rparr>)
                  client_socket client_address (log (Get_call client_socket client_address) w) of
             (Returns u, self1, w1) \<Rightarrow> process_requests handle_request self1 w1
           | other \<Rightarrow> other))"
  by pat_completeness auto
termination
proof (relation "measure (\<lambda>(h, self, w). length (items (request_queue self)))")
  show "wf (measure (\<lambda>(h, self, w). length (items (request_queue self))))"
    by simp
next
  fix handle_request :: handler and self :: coordinator and w :: world
    and x2 x q client_socket client_address r rest u self1 w1
  assume g: "get (request_queue self) = Some x2" "(x, q) = x2"
      "(client_socket, client_address) = x"
    and t: "(r, rest) = process_requests_turn handle_request (self\<lparr>request_queue := q\<rparr>)
              client_socket client_address (log (Get_call client_socket client_address) w)"
           "r = Returns u" "(self1, w1) = rest"
  from g have "items (request_queue self) = (client_socket, client_address) # items q"
    by (auto simp: get_def split: list.splits)
  moreover from t have "items (request_queue self1) = items q"
    using process_requests_turn_items [of handle_request "self\<lparr>request_queue := q\<rparr>"
        client_socket client_address "log (Get_call client_socket client_address) w" r self1 w1]
    by simp
  ultimately show "((handle_request, self1, w1), handle_request, self, w)
       \<in> measure (\<lambda>(h, self, w). length (items (request_queue self)))"
    by simp
qed

declare process_requests.simps [simp del]

text \<open>
  The accept loop of \<open>start\<close>. Each accepted connection is handed to a new thread that runs
  \<open>queue_client_request\<close>; here that thread runs at once, before the next \<open>accept\<close>. The loop
  has no \<open>try\<close>: what \<open>accept\<close> raises leaves the loop.
\<close>

lemma sock_accept_arrivals:
  "sock_accept w = (Returns x, w1) \<Longrightarrow> length (arrivals w1) < length (arrivals w)"
  by (auto simp: sock_accept_def log_def set_sock_def Let_def
           split: list.splits sum.splits if_splits option.splits)

lemma display_update_arrivals: "arrivals (display_update self m w) = arrivals w"
  by (simp add: display_update_def print_def)

lemma queue_client_request_arrivals:
  "arrivals (snd (queue_client_request self s a w)) = arrivals w"
  by (simp add: queue_client_request_def Let_def display_update_arrivals log_def)

function accept_loop :: "coordinator \<Rightarrow> world \<Rightarrow> unit outcome \<times> coordinator \<times> world" where
  "accept_loop self w =
     (case sock_accept w of
        (Raises e, w1) \<Rightarrow> (Raises e, self, w1)
      | (Blocks b, w1) \<Rightarrow> (Blocks b, self, w1)
      | (Returns (client_socket, client_address), w1) \<Rightarrow>
          (let w2 = display_update self (Accepted_connection client_address) w1;
               (self1, w3) = queue_client_request self client_socket client_address w2
           in accept_loop self1 w3))"
  by pat_completeness auto
termination
proof (relation "measure (\<lambda>(self, w). length (arrivals w))")
  show "wf (measure (\<lambda>(self, w). length (arrivals w)))"
    by simp
next
  fix self :: coordinator and w :: world
    and r w1 x client_socket client_address w2 q self1 w3
  assume a: "(r, w1) = sock_accept w" "r = Returns x"
      "(client_socket, client_address) = x"
      "w2 = display_update self (Accepted_connection client_address) w1"
      "q = queue_client_request self client_socket client_address w2"
      "(self1, w3) = q"
  from a have "length (arrivals w1) < length (arrivals w)"
    using sock_accept_arrivals [of w x w1] by simp
  moreover have "w3 = snd (queue_client_request self client_socket client_address w2)"
    using a(5) a(6) by (metis snd_conv)
  then have "arrivals w3 = arrivals w1"
    using a(4) by (simp add: queue_client_request_arrivals display_update_arrivals)
  ultimately show "((self1, w3), self, w) \<in> measure (\<lambda>(self, w). length (arrivals w))"
    by simp
qed

declare accept_loop.simps [simp del]

text \<open>
  \<open>start\<close>: make the server socket, bind, listen, start the thread of \<open>process_requests\<close>
  (recorded as a call; \<open>process_requests\<close> above is what it runs), then accept for ever.
\<close>

definition start :: "coordinator \<Rightarrow> world \<Rightarrow> unit outcome \<times> coordinator \<times> world" where
  "start self w =
     (case sock_socket w of
        (Raises e, w1) \<Rightarrow> (Raises e, self, w1)
      | (Blocks b, w1) \<Rightarrow> (Blocks b, self, w1)
      | (Returns server_socket, w1) \<Rightarrow>
          (case sock_bind server_socket (host self, port self) w1 of
             (Raises e, w2) \<Rightarrow> (Raises e, self, w2)
           | (Blocks b, w2) \<Rightarrow> (Blocks b, self, w2)
           | (Returns u, w2) \<Rightarrow>
               (let w3 = sock_listen server_socket (max_num_of_clients self) w2;
                    w4 = display_update self (Coordinator_listening (host self) (port self)) w3;
                    w5 = log Thread_process_requests w4
                in accept_loop self w5)))"

subsection \<open>Worker\<close>

record worker =
  worker_host :: string
  worker_port :: int
  worker_are_updates_displayed :: bool
  client_socket :: "fd option"

definition Worker :: "string \<Rightarrow> int \<Rightarrow> bool \<Rightarrow> worker" where
  "Worker h p d =
     \<lparr>worker_host = h, worker_port = p, worker_are_updates_displayed = d, client_socket = None\<rparr>"

definition worker_display_update :: "worker \<Rightarrow> update \<Rightarrow> world \<Rightarrow> world" where
  "worker_display_update self message w =
     (if worker_are_updates_displayed self then print message w else w)"

text \<open>
  The body of the \<open>try\<close> in \<open>query_coordinator\<close>. \<open>others\<close> is what the rest of the system (the
  Coordinator at the other end) does between the Worker's \<open>send\<close> and the return of its
  \<open>recv\<close>. \<open>self.client_socket\<close> is \<open>None\<close> before \<open>start\<close>: \<open>None.send\<close> is an AttributeError.
\<close>

definition query_coordinator_try ::
  "(world \<Rightarrow> world) \<Rightarrow> worker \<Rightarrow> bytes \<Rightarrow> world \<Rightarrow> bytes outcome \<times> world" where
  "query_coordinator_try others self data w =
     (let w1 = worker_display_update self Querying w in
      case client_socket self of
        None \<Rightarrow> (Raises OtherError, w1)
      | Some s \<Rightarrow>
          (case sock_send s data w1 of
             (Raises e, w2) \<Rightarrow> (Raises e, w2)
           | (Blocks b, w2) \<Rightarrow> (Blocks b, w2)
           | (Returns n, w2) \<Rightarrow>
               (let w3 = worker_display_update self Waiting_for_response w2 in
                case sock_recv s 1024 (others w3) of
                  (Raises e, w4) \<Rightarrow> (Raises e, w4)
                | (Blocks b, w4) \<Rightarrow> (Blocks b, w4)
                | (Returns response, w4) \<Rightarrow>
                    (Returns response, worker_display_update self Response_received w4))))"

text \<open>\<open>query_coordinator\<close>: \<open>except socket.error\<close> turns a socket error into \<open>b''\<close>.\<close>

definition query_coordinator ::
  "(world \<Rightarrow> world) \<Rightarrow> worker \<Rightarrow> bytes \<Rightarrow> world \<Rightarrow> bytes outcome \<times> world" where
  "query_coordinator others self data w =
     (case query_coordinator_try others self data w of
        (Raises SocketError, w1) \<Rightarrow>
          (Returns [], worker_display_update self (Error_during_communication SocketError) w1)
      | other \<Rightarrow> other)"





subsection \<open>Reading the record of calls\<close>

text \<open>The Coordinator once \<open>get\<close> has left \<open>rest\<close> in the queue.\<close>

definition pop :: "coordinator \<Rightarrow> (fd \<times> address) list \<Rightarrow> coordinator" where
  "pop self rest = self\<lparr>request_queue := (request_queue self)\<lparr>items := rest\<rparr>\<rparr>"

text \<open>The calls made since an earlier world.\<close>

definition new_calls :: "world \<Rightarrow> world \<Rightarrow> event list" where
  "new_calls w w' = drop (length (calls w)) (calls w')"

text \<open>The Handler invocations among the calls, with their arguments.\<close>

fun handler_of :: "event \<Rightarrow> (fd \<times> address \<times> bytes) list" where
  "handler_of (Handler_call s a d) = [(s, a, d)]"
| "handler_of _ = []"

definition handled :: "event list \<Rightarrow> (fd \<times> address \<times> bytes) list" where
  "handled t = concat (map handler_of t)"

text \<open>
  The calls of the body of the \<open>try\<close>: one read, then the Handler when the read returned,
  then one write when the Handler returned.
\<close>

definition try_calls :: "handler \<Rightarrow> fd \<Rightarrow> address \<Rightarrow> world \<Rightarrow> event list" where
  "try_calls h s a w =
     Recv_call s 1024 #
     (case fst (sock_recv s 1024 w) of
        Returns d \<Rightarrow>
          Handler_call s a d # (case h s a d of Inl e \<Rightarrow> [] | Inr response \<Rightarrow> [Send_call s response])
      | Raises e \<Rightarrow> []
      | Blocks b \<Rightarrow> [])"

text \<open>
  The calls of one turn of the loop: those of the body, then (unless the body waits for ever)
  the \<open>close\<close> and, when \<open>task_done\<close> does not raise, the \<open>task_done\<close>.
\<close>

definition turn_calls :: "handler \<Rightarrow> coordinator \<Rightarrow> fd \<Rightarrow> address \<Rightarrow> world \<Rightarrow> event list" where
  "turn_calls h self s a w =
     (let w1 = display_update self (Processing_request a) w in
      try_calls h s a w1 @
      (case fst (process_requests_try h s a w1) of
         Blocks b \<Rightarrow> []
       | Raises e \<Rightarrow>
           Close_call s # (case task_done (request_queue self) of Inl e \<Rightarrow> [] | Inr q \<Rightarrow> [Task_done_call])
       | Returns u \<Rightarrow>
           Close_call s # (case task_done (request_queue self) of Inl e \<Rightarrow> [] | Inr q \<Rightarrow> [Task_done_call])))"

text \<open>
  What happens to the queue entries: the \<open>get\<close>, \<open>close\<close> and \<open>task_done\<close> calls among the
  calls, and the calls of entries that were each taken, closed once and marked done once.
\<close>

fun lifecycle_of :: "event \<Rightarrow> event list" where
  "lifecycle_of (Get_call s a) = [Get_call s a]"
| "lifecycle_of (Close_call s) = [Close_call s]"
| "lifecycle_of Task_done_call = [Task_done_call]"
| "lifecycle_of _ = []"

definition lifecycle :: "event list \<Rightarrow> event list" where
  "lifecycle t = concat (map lifecycle_of t)"


text \<open>The Handler invocations among the calls, by socket and address.\<close>

definition invoked :: "event list \<Rightarrow> (fd \<times> address) list" where
  "invoked t = map (\<lambda>(s, a, d). (s, a)) (handled t)"

text \<open>
  The registration threads that \<open>start\<close> makes, one per accepted connection, each running
  \<open>queue_client_request\<close>: \<open>rs\<close> is the order in which their \<open>put\<close> calls reach the queue.
\<close>

fun enqueue_all :: "coordinator \<Rightarrow> (fd \<times> address) list \<Rightarrow> world \<Rightarrow> coordinator \<times> world" where
  "enqueue_all self [] w = (self, w)"
| "enqueue_all self ((s, a) # rs) w =
     (case queue_client_request self s a w of (self1, w1) \<Rightarrow> enqueue_all self1 rs w1)"


subsection \<open>What a run shows apart from its printed output\<close>

text \<open>
  The world without what was printed, a Coordinator and a Worker without the value of their
  \<open>are_updates_displayed\<close> flag, and the result of an operation (its outcome, the object and
  the world after it) without both.
\<close>

definition silent :: "world \<Rightarrow> world" where
  "silent w = w\<lparr>stdout := []\<rparr>"

definition flag_off :: "coordinator \<Rightarrow> coordinator" where
  "flag_off self = self\<lparr>are_updates_displayed := False\<rparr>"

definition worker_flag_off :: "worker \<Rightarrow> worker" where
  "worker_flag_off self = self\<lparr>worker_are_updates_displayed := False\<rparr>"



subsection \<open>Example worlds\<close>

definition echo :: handler where
  "echo s a received_data = Inr received_data"

definition alice :: address where
  "alice = (''10.0.0.1'', 40001)"

definition bob :: address where
  "bob = (''10.0.0.2'', 40002)"

text \<open>Two accepted connections wait in the queue; both clients have sent two bytes.\<close>

definition two_requests :: coordinator where
  "two_requests = (Coordinator ''localhost'' 5000 5 False)
     \<lparr>request_queue := \<lparr>items = [(0, alice), (1, bob)], unfinished_tasks = 2\<rparr>\<rparr>"

definition two_clients :: world where
  "two_clients =
     \<lparr>socks = (\<lambda>_. new_sock)(0 := new_sock\<lparr>inbox := [104, 105]\<rparr>,
                               1 := new_sock\<lparr>inbox := [121, 111]\<rparr>),
      next_fd = 2, fd_limit = 16, send_room = (\<lambda>_. 4096), arrivals = [], listening = [],
      stdout = [], calls = []\<rparr>"

text \<open>A Worker whose connection has been reset.\<close>

definition reset_worker :: worker where
  "reset_worker = (Worker ''localhost'' 5000 False)\<lparr>client_socket := Some 0\<rparr>"

definition reset_connection :: world where
  "reset_connection = \<lparr>socks = (\<lambda>_. new_sock\<lparr>broken := True\<rparr>), next_fd = 1, fd_limit = 8,
     send_room = (\<lambda>_. 4096), arrivals = [], listening = [], stdout = [], calls = []\<rparr>"



text \<open>The connection of the first client has been reset.\<close>

definition first_client_reset :: world where
  "first_client_reset = set_sock 0 (new_sock\<lparr>broken := True\<rparr>) two_clients"

text \<open>A Handler that raises on an empty request, and a first client that closed without sending.\<close>

definition refuse_empty :: handler where
  "refuse_empty s a received_data = (if received_data = [] then Inl OtherError else Inr received_data)"

definition first_client_silent :: world where
  "first_client_silent = set_sock 0 (new_sock\<lparr>peer_closed := True\<rparr>) two_clients"

text \<open>The transport takes one byte from each \<open>send\<close>.\<close>

definition narrow_transport :: world where
  "narrow_transport = two_clients\<lparr>send_room := (\<lambda>_. 1)\<rparr>"

text \<open>The first \<open>accept\<close> fails; a client arrives after it.\<close>

definition failing_accept :: world where
  "failing_accept =
     \<lparr>socks = (\<lambda>_. new_sock\<lparr>is_open := False\<rparr>), next_fd = 0, fd_limit = 16,
      send_room = (\<lambda>_. 4096), arrivals = [Inl SocketError, Inr (bob, None)], listening = [],
      stdout = [], calls = []\<rparr>"

text \<open>Both connections registered through \<open>queue_client_request\<close> on a new Coordinator.\<close>

definition two_enqueued :: "world \<Rightarrow> coordinator \<times> world" where
  "two_enqueued w = enqueue_all (Coordinator ''localhost'' 5000 5 False) [(0, alice), (1, bob)] w"




section \<open>Facts about the model\<close>

lemma display_update_calls: "calls (display_update self m w) = calls w"
  by (simp add: display_update_def print_def)

lemma display_update_socks: "socks (display_update self m w) = socks w"
  by (simp add: display_update_def print_def)

lemma sock_recv_calls: "calls (snd (sock_recv s n w)) = calls w @ [Recv_call s n]"
  by (simp add: sock_recv_def Let_def log_def set_sock_def)

lemma sock_send_calls: "calls (snd (sock_send s d w)) = calls w @ [Send_call s d]"
  by (simp add: sock_send_def Let_def log_def set_sock_def deliver_def split: option.splits)

lemma sock_close_calls: "calls (sock_close s w) = calls w @ [Close_call s]"
  by (simp add: sock_close_def Let_def log_def set_sock_def notify_closed_def split: option.splits)

lemma sock_close_closed: "\<not> is_open (socks (sock_close s w) s)"
  by (simp add: sock_close_def Let_def log_def set_sock_def notify_closed_def split: option.splits)

lemma process_requests_try_calls:
  "calls (snd (process_requests_try h s a w)) = calls w @ try_calls h s a w"
proof (cases "sock_recv s 1024 w")
  case (Pair r w1)
  then have c1: "calls w1 = calls w @ [Recv_call s 1024]"
    using sock_recv_calls [of s 1024 w] by simp
  show ?thesis
  proof (cases r)
    case (Returns d)
    show ?thesis
    proof (cases "h s a d")
      case (Inl e)
      then show ?thesis using Pair Returns c1
        by (simp add: process_requests_try_def try_calls_def Let_def log_def)
    next
      case (Inr response)
      obtain r3 w3 where s3: "sock_send s response (log (Handler_call s a d) w1) = (r3, w3)"
        by (cases "sock_send s response (log (Handler_call s a d) w1)")
      then have "calls w3 = calls w @ [Recv_call s 1024, Handler_call s a d, Send_call s response]"
        using sock_send_calls [of s response "log (Handler_call s a d) w1"] c1
        by (simp add: log_def)
      then show ?thesis using Pair Returns Inr s3
        by (cases r3) (simp_all add: process_requests_try_def try_calls_def Let_def)
    qed
  qed (use Pair c1 in \<open>simp_all add: process_requests_try_def try_calls_def\<close>)
qed

lemma process_requests_finally_calls:
  "process_requests_finally self s a w = (r, self', w') \<Longrightarrow>
     calls w' = calls w @ Close_call s # (case r of Returns u \<Rightarrow> [Task_done_call] | _ \<Rightarrow> [])"
  by (auto simp: process_requests_finally_def Let_def display_update_calls sock_close_calls log_def
           split: sum.splits)

lemma process_requests_finally_closed:
  "process_requests_finally self s a w = (r, self', w') \<Longrightarrow> \<not> is_open (socks w' s)"
  by (auto simp: process_requests_finally_def Let_def display_update_socks sock_close_closed log_def
           split: sum.splits)

lemma process_requests_finally_returns:
  "0 < unfinished_tasks (request_queue self) \<Longrightarrow>
     \<exists>w'. process_requests_finally self s a w =
       (Returns (), self\<lparr>request_queue := (request_queue self)
            \<lparr>unfinished_tasks := unfinished_tasks (request_queue self) - 1\<rparr>\<rparr>, w')"
  by (auto simp: process_requests_finally_def Let_def task_done_def split: nat.splits)

lemma get_Nil: "items q = [] \<Longrightarrow> get q = None"
  by (simp add: get_def)

lemma get_Cons: "items q = x # rest \<Longrightarrow> get q = Some (x, q\<lparr>items := rest\<rparr>)"
  by (simp add: get_def)

lemma process_requests_empty:
  "items (request_queue self) = [] \<Longrightarrow> process_requests h self w = (Blocks In_get, self, w)"
  by (simp add: process_requests.simps get_Nil)

lemma process_requests_step:
  assumes "items (request_queue self) = (s, a) # rest"
    and "process_requests_turn h (pop self rest) s a (log (Get_call s a) w) = (r1, self1, w1)"
  shows "process_requests h self w =
           (case r1 of Returns u \<Rightarrow> process_requests h self1 w1 | _ \<Rightarrow> (r1, self1, w1))"
  using assms
  by (subst process_requests.simps) (simp add: get_Cons pop_def split: outcome.splits)

lemma process_requests_induct [consumes 1, case_names empty stop go]:
  assumes run: "process_requests h self w = (r, self', w')"
    and empty: "\<And>self w. items (request_queue self) = [] \<Longrightarrow> P self w (Blocks In_get) self w"
    and stop: "\<And>self w s a rest r self' w'.
        items (request_queue self) = (s, a) # rest \<Longrightarrow>
        process_requests_turn h (pop self rest) s a (log (Get_call s a) w) = (r, self', w') \<Longrightarrow>
        (\<forall>u. r \<noteq> Returns u) \<Longrightarrow> P self w r self' w'"
    and go: "\<And>self w s a rest self1 w1 r self' w'.
        items (request_queue self) = (s, a) # rest \<Longrightarrow>
        process_requests_turn h (pop self rest) s a (log (Get_call s a) w) = (Returns (), self1, w1) \<Longrightarrow>
        process_requests h self1 w1 = (r, self', w') \<Longrightarrow>
        P self1 w1 r self' w' \<Longrightarrow> P self w r self' w'"
  shows "P self w r self' w'"
  using run
proof (induction "length (items (request_queue self))" arbitrary: self w)
  case 0
  then show ?case using empty [of self w] by (simp add: process_requests_empty)
next
  case (Suc n)
  then obtain s a rest where it: "items (request_queue self) = (s, a) # rest"
    by (cases "items (request_queue self)") auto
  obtain r1 self1 w1 where
    t: "process_requests_turn h (pop self rest) s a (log (Get_call s a) w) = (r1, self1, w1)"
    by (metis prod_cases3)
  note st = process_requests_step [OF it t]
  show ?case
  proof (cases "\<exists>u. r1 = Returns u")
    case True
    then have r1: "r1 = Returns ()" by auto
    have "items (request_queue self1) = rest"
      using process_requests_turn_items [OF t] by (simp add: pop_def)
    then have n: "n = length (items (request_queue self1))" using Suc.hyps(2) it by simp
    have run1: "process_requests h self1 w1 = (r, self', w')"
      using st Suc.prems r1 by simp
    show ?thesis
      using go [OF it t [unfolded r1] run1 Suc.hyps(1) [OF n run1]] .
  next
    case False
    then have "(r, self', w') = (r1, self1, w1)"
      using st Suc.prems by (cases r1) auto
    then show ?thesis using stop [OF it _ ] t False by auto
  qed
qed

lemma handled_simps [simp]:
  "handled [] = []" "handled (x # xs) = handler_of x @ handled xs"
  "handled (xs @ ys) = handled xs @ handled ys"
  by (simp_all add: handled_def)

lemma new_calls_append: "calls w' = calls w @ n \<Longrightarrow> new_calls w w' = n"
  by (simp add: new_calls_def)

lemma process_requests_finally_calls':
  "calls (snd (snd (process_requests_finally self s a w))) =
     calls w @ Close_call s # (case task_done (request_queue self) of Inl e \<Rightarrow> [] | Inr q \<Rightarrow> [Task_done_call])"
  by (auto simp: process_requests_finally_def Let_def display_update_calls sock_close_calls log_def
           split: sum.splits)

lemma process_requests_turn_calls:
  "calls (snd (snd (process_requests_turn h self s a w))) = calls w @ turn_calls h self s a w"
proof -
  define w1 where "w1 = display_update self (Processing_request a) w"
  obtain r2 w2 where t: "process_requests_try h s a w1 = (r2, w2)"
    by (cases "process_requests_try h s a w1")
  have c2: "calls w2 = calls w @ try_calls h s a w1"
    using process_requests_try_calls [of h s a w1] t by (simp add: w1_def display_update_calls)
  obtain r3 self3 w3 where f: "process_requests_finally self s a w2 = (r3, self3, w3)"
    by (metis prod_cases3)
  have c3: "calls w3 = calls w2 @ Close_call s #
      (case task_done (request_queue self) of Inl e \<Rightarrow> [] | Inr q \<Rightarrow> [Task_done_call])"
    using process_requests_finally_calls' [of self s a w2] f by simp
  show ?thesis
    using t f c2 c3
    by (cases r2; cases r3)
       (simp_all add: process_requests_turn_def turn_calls_def Let_def flip: w1_def)
qed

lemma process_requests_turn_outcome:
  assumes "0 < unfinished_tasks (request_queue self)"
    and "process_requests_turn h self s a w = (r, self', w')"
  shows "r = fst (process_requests_try h s a (display_update self (Processing_request a) w))"
    and "(\<forall>b. r \<noteq> Blocks b) \<Longrightarrow>
           self' = self\<lparr>request_queue := (request_queue self)
                    \<lparr>unfinished_tasks := unfinished_tasks (request_queue self) - 1\<rparr>\<rparr>"
    and "(\<forall>b. r \<noteq> Blocks b) \<Longrightarrow> \<not> is_open (socks w' s)"
    and "\<And>b. r = Blocks b \<Longrightarrow> self' = self"
proof -
  define w1 where "w1 = display_update self (Processing_request a) w"
  obtain r2 w2 where t: "process_requests_try h s a w1 = (r2, w2)"
    by (cases "process_requests_try h s a w1")
  obtain w3 where f: "process_requests_finally self s a w2 =
       (Returns (), self\<lparr>request_queue := (request_queue self)
            \<lparr>unfinished_tasks := unfinished_tasks (request_queue self) - 1\<rparr>\<rparr>, w3)"
    using process_requests_finally_returns [OF assms(1)] by blast
  note cl = process_requests_finally_closed [OF f]
  have *: "r = r2 \<and> ((\<forall>b. r \<noteq> Blocks b) \<longrightarrow>
           self' = self\<lparr>request_queue := (request_queue self)
                    \<lparr>unfinished_tasks := unfinished_tasks (request_queue self) - 1\<rparr>\<rparr> \<and>
           \<not> is_open (socks w' s)) \<and> ((\<exists>b. r = Blocks b) \<longrightarrow> self' = self)"
    using assms(2) t f cl
    by (cases r2) (auto simp: process_requests_turn_def Let_def simp flip: w1_def)
  show "r = fst (process_requests_try h s a (display_update self (Processing_request a) w))"
    using * t by (simp add: w1_def)
  show "(\<forall>b. r \<noteq> Blocks b) \<Longrightarrow>
           self' = self\<lparr>request_queue := (request_queue self)
                    \<lparr>unfinished_tasks := unfinished_tasks (request_queue self) - 1\<rparr>\<rparr>"
    using * by simp
  show "(\<forall>b. r \<noteq> Blocks b) \<Longrightarrow> \<not> is_open (socks w' s)" using * by simp
  show "\<And>b. r = Blocks b \<Longrightarrow> self' = self" using * by auto
qed

lemma lifecycle_simps [simp]:
  "lifecycle [] = []" "lifecycle (x # xs) = lifecycle_of x @ lifecycle xs"
  "lifecycle (xs @ ys) = lifecycle xs @ lifecycle ys"
  by (simp_all add: lifecycle_def)

lemma lifecycle_try_calls: "lifecycle (try_calls h s a w) = []"
  by (simp add: try_calls_def split: outcome.splits sum.splits)

lemma handled_try_calls:
  "handled (try_calls h s a w) =
     (case fst (sock_recv s 1024 w) of Returns d \<Rightarrow> [(s, a, d)] | _ \<Rightarrow> [])"
  by (simp add: try_calls_def split: outcome.splits sum.splits)

lemma sock_recv_blocks: "sock_recv s n w = (Blocks b, w') \<Longrightarrow> b = In_recv"
  by (auto simp: sock_recv_def Let_def split: if_splits)

lemma sock_send_blocks: "sock_send s d w = (Blocks b, w') \<Longrightarrow> b = In_send"
  by (auto simp: sock_send_def Let_def split: if_splits)

lemma process_requests_try_blocks:
  "process_requests_try h s a w = (Blocks b, w') \<Longrightarrow> b = In_recv \<or> b = In_send"
  unfolding process_requests_try_def Let_def
  by (auto split: prod.splits outcome.splits sum.splits dest: sock_recv_blocks sock_send_blocks)

lemma process_requests_finally_outcome:
  "process_requests_finally self s a w = (r, self', w') \<Longrightarrow> r = Returns () \<or> r = Raises ValueError"
  by (auto simp: process_requests_finally_def Let_def task_done_def split: nat.splits)

lemma process_requests_turn_blocks:
  assumes "process_requests_turn h self s a w = (Blocks b, self', w')"
  shows "b = In_recv \<or> b = In_send"
proof -
  obtain r2 w2 where t: "process_requests_try h s a (display_update self (Processing_request a) w) = (r2, w2)"
    by (metis surj_pair)
  obtain r3 self3 w3 where f: "process_requests_finally self s a w2 = (r3, self3, w3)"
    by (metis prod_cases3)
  show ?thesis
    using assms t f process_requests_try_blocks [of h s a _ b w2]
      process_requests_finally_outcome [OF f]
    by (cases r2) (auto simp: process_requests_turn_def Let_def)
qed

lemma process_requests_turn_returns:
  assumes "process_requests_turn h self s a w = (Returns u, self', w')"
  shows "\<exists>d. fst (sock_recv s 1024 (display_update self (Processing_request a) w)) = Returns d"
proof -
  define w1 where "w1 = display_update self (Processing_request a) w"
  obtain r2 w2 where t: "process_requests_try h s a w1 = (r2, w2)"
    by (metis surj_pair)
  obtain r3 self3 w3 where f: "process_requests_finally self s a w2 = (r3, self3, w3)"
    by (metis prod_cases3)
  have "r2 = Returns ()"
    using assms t f by (cases r2; cases r3) (auto simp: process_requests_turn_def Let_def simp flip: w1_def)
  then have "\<exists>d. fst (sock_recv s 1024 w1) = Returns d"
    using t unfolding process_requests_try_def Let_def
    by (auto split: prod.splits outcome.splits sum.splits)
  then show ?thesis by (simp add: w1_def)
qed

lemma lifecycle_turn_calls:
  assumes "0 < unfinished_tasks (request_queue self)"
    and "\<forall>b. fst (process_requests_try h s a (display_update self (Processing_request a) w)) \<noteq> Blocks b"
  shows "lifecycle (turn_calls h self s a w) = [Close_call s, Task_done_call]"
  using assms
  by (auto simp: turn_calls_def Let_def lifecycle_try_calls task_done_def
           split: outcome.splits nat.splits)






lemma sock_connect_refused:
  "a \<notin> set (listening w) \<Longrightarrow> sock_connect s a w = (Raises SocketError, log (Connect_call s a) w)"
  by (simp add: sock_connect_def Let_def log_def)


subsection \<open>The Handler invocations of a run\<close>

lemma enqueue_all_items:
  "enqueue_all self rs w = (self', w') \<Longrightarrow>
     items (request_queue self') = items (request_queue self) @ rs"
  by (induction self rs w rule: enqueue_all.induct)
     (auto simp: queue_client_request_def put_def Let_def split: prod.splits)

lemma display_update_pop [simp]: "display_update (pop self rest) = display_update self"
  by (rule ext, rule ext) (simp add: display_update_def pop_def)

lemma handled_turn_calls:
  "handled (turn_calls h self s a w) =
     handled (try_calls h s a (display_update self (Processing_request a) w))"
  by (simp add: turn_calls_def Let_def split: outcome.splits sum.splits)

lemma invoked_simps [simp]:
  "invoked [] = []" "invoked (xs @ ys) = invoked xs @ invoked ys"
  "invoked (x # xs) = map (\<lambda>(s, a, d). (s, a)) (handler_of x) @ invoked xs"
  by (simp_all add: invoked_def)

lemma invoked_turn_calls:
  "invoked (turn_calls h self s a w) =
     (case fst (sock_recv s 1024 (display_update self (Processing_request a) w)) of
        Returns d \<Rightarrow> [(s, a)] | _ \<Rightarrow> [])"
  by (simp add: invoked_def handled_turn_calls handled_try_calls split: outcome.splits)

lemma process_requests_invoked:
  assumes "process_requests h self w = (r, self', w')"
  shows "\<exists>n. calls w' = calls w @ n \<and>
           prefix (invoked n) (items (request_queue self)) \<and>
           (r = Blocks In_get \<longrightarrow> invoked n = items (request_queue self))"
  using assms
proof (induction rule: process_requests_induct)
  case (empty self w)
  then show ?case by simp
next
  case (stop self w s a rest r self' w')
  have c: "calls w' = calls w @ Get_call s a #
             turn_calls h (pop self rest) s a (log (Get_call s a) w)"
    using process_requests_turn_calls [of h "pop self rest" s a "log (Get_call s a) w"] stop(2)
    by (simp add: log_def)
  have "r \<noteq> Blocks In_get"
    using process_requests_turn_blocks [of h "pop self rest" s a _ In_get self' w'] stop(2)
    by auto
  moreover have "prefix (invoked (Get_call s a #
             turn_calls h (pop self rest) s a (log (Get_call s a) w))) ((s, a) # rest)"
    by (simp add: invoked_turn_calls split: outcome.splits)
  ultimately show ?case using c stop(1) by auto
next
  case (go self w s a rest self1 w1 r self' w')
  have c: "calls w1 = calls w @ Get_call s a #
             turn_calls h (pop self rest) s a (log (Get_call s a) w)"
    using process_requests_turn_calls [of h "pop self rest" s a "log (Get_call s a) w"] go(2)
    by (simp add: log_def)
  have it: "items (request_queue self1) = rest"
    using process_requests_turn_items [OF go(2)] by (simp add: pop_def)
  have t: "invoked (turn_calls h (pop self rest) s a (log (Get_call s a) w)) = [(s, a)]"
    using process_requests_turn_returns [OF go(2)] by (auto simp: invoked_turn_calls)
  from go.IH obtain n where n: "calls w' = calls w1 @ n" "prefix (invoked n) rest"
    "r = Blocks In_get \<longrightarrow> invoked n = rest"
    using it by auto
  have "invoked (Get_call s a # turn_calls h (pop self rest) s a (log (Get_call s a) w) @ n)
          = (s, a) # invoked n"
    by (simp add: t)
  then show ?case using c n go(1)
    by (intro exI [of _ "Get_call s a # turn_calls h (pop self rest) s a (log (Get_call s a) w) @ n"])
       simp
qed

subsection \<open>A request and its answer over a connection\<close>




lemma log_fields [simp]: "socks (log e w) = socks w" "send_room (log e w) = send_room w"
  by (simp_all add: log_def)

lemma display_update_send_room [simp]: "send_room (display_update self m w) = send_room w"
  by (simp add: display_update_def print_def)

lemma worker_display_update_fields [simp]:
  "socks (worker_display_update self m w) = socks w"
  "send_room (worker_display_update self m w) = send_room w"
  by (simp_all add: worker_display_update_def print_def)


subsection \<open>Printing changes nothing but the output\<close>

lemma silent_display_update [simp]: "silent (display_update self m w) = silent w"
  by (simp add: silent_def display_update_def print_def)

lemma silent_worker_display_update [simp]: "silent (worker_display_update self m w) = silent w"
  by (simp add: silent_def worker_display_update_def print_def)

lemma display_update_flag_off [simp]: "display_update (flag_off self) m w = w"
  by (simp add: display_update_def flag_off_def)

lemma worker_display_update_flag_off [simp]: "worker_display_update (worker_flag_off self) m w = w"
  by (simp add: worker_display_update_def worker_flag_off_def)

lemma silent_log [simp]: "silent (log e w) = log e (silent w)"
  by (simp add: silent_def log_def)

lemma silent_idem [simp]: "silent (silent w) = silent w"
  by (simp add: silent_def)

lemma flag_off_fields [simp]:
  "request_queue (flag_off self) = request_queue self"
  "host (flag_off self) = host self" "port (flag_off self) = port self"
  "max_num_of_clients (flag_off self) = max_num_of_clients self"
  "flag_off (self\<lparr>request_queue := q\<rparr>) = (flag_off self)\<lparr>request_queue := q\<rparr>"
  "flag_off (self\<lparr>are_updates_displayed := b\<rparr>) = flag_off self"
  "flag_off (flag_off self) = flag_off self"
  by (simp_all add: flag_off_def)

lemma worker_flag_off_fields [simp]:
  "client_socket (worker_flag_off self) = client_socket self"
  "worker_host (worker_flag_off self) = worker_host self"
  "worker_port (worker_flag_off self) = worker_port self"
  "worker_flag_off (self\<lparr>client_socket := c\<rparr>) = (worker_flag_off self)\<lparr>client_socket := c\<rparr>"
  "worker_flag_off (self\<lparr>worker_are_updates_displayed := b\<rparr>) = worker_flag_off self"
  "worker_flag_off (worker_flag_off self) = worker_flag_off self"
  by (simp_all add: worker_flag_off_def)

lemma sock_recv_silent: "sock_recv s n (silent w) = (fst (sock_recv s n w), silent (snd (sock_recv s n w)))"
  by (simp add: sock_recv_def silent_def Let_def log_def set_sock_def)








text \<open>A call on a world and on the world with the output of \<open>display_update\<close> added.\<close>

lemma sock_recv_after_display:
  "fst (sock_recv s n (display_update self m w)) = fst (sock_recv s n w)"
  "silent (snd (sock_recv s n (display_update self m w))) = silent (snd (sock_recv s n w))"
  using sock_recv_silent [of s n "display_update self m w"] sock_recv_silent [of s n w]
  by simp_all












lemma worker_flag_off_flag [simp]:
  "\<not> worker_are_updates_displayed (worker_flag_off self)"
  "\<not> worker_are_updates_displayed ((worker_flag_off self)\<lparr>client_socket := c\<rparr>)"
  by (simp_all add: worker_flag_off_def)




subsection \<open>The steps of one turn\<close>

lemma sock_recv_bounded: "fst (sock_recv s n w) = Returns d \<Longrightarrow> length d \<le> n"
  by (auto simp: sock_recv_def Let_def split: if_splits)

lemma process_requests_turn_steps:
  assumes "sock_recv s 1024 (display_update self (Processing_request a) w) = (Returns d, w1)"
    and "h s a d = Inr response"
    and "sock_send s response (log (Handler_call s a d) w1) = (Returns n, w2)"
    and "0 < unfinished_tasks (request_queue self)"
  shows "turn_calls h self s a w =
           [Recv_call s 1024, Handler_call s a d, Send_call s response, Close_call s,
            Task_done_call]"
    and "length d \<le> 1024"
    and "fst (process_requests_turn h self s a w) = Returns ()"
proof -
  have t: "process_requests_try h s a (display_update self (Processing_request a) w)
             = (Returns (), w2)"
    using assms(1-3) by (simp add: process_requests_try_def Let_def)
  obtain q where q: "task_done (request_queue self) = Inr q"
    using assms(4) by (cases "unfinished_tasks (request_queue self)") (auto simp: task_done_def)
  show "turn_calls h self s a w =
           [Recv_call s 1024, Handler_call s a d, Send_call s response, Close_call s,
            Task_done_call]"
    using assms(1,2) t q by (simp add: turn_calls_def try_calls_def Let_def)
  show "length d \<le> 1024"
    using sock_recv_bounded [of s 1024 "display_update self (Processing_request a) w" d] assms(1)
    by simp
  show "fst (process_requests_turn h self s a w) = Returns ()"
    using t q by (simp add: process_requests_turn_def process_requests_finally_def Let_def)
qed

subsection \<open>Running the loop on given queues\<close>

lemma process_requests_unfold:
  "process_requests h self w =
     (case items (request_queue self) of
        [] \<Rightarrow> (Blocks In_get, self, w)
      | (s, a) # rest \<Rightarrow>
          (case process_requests_turn h (pop self rest) s a (log (Get_call s a) w) of
             (Returns u, self1, w1) \<Rightarrow> process_requests h self1 w1
           | other \<Rightarrow> other))"
  by (subst process_requests.simps) (simp add: get_def pop_def split: list.splits)

lemmas run_defs = Coordinator_def Queue_def
  pop_def process_requests_turn_def process_requests_try_def
  process_requests_finally_def sock_recv_def sock_send_def sock_close_def display_update_def
  print_def log_def set_sock_def deliver_def notify_closed_def task_done_def new_sock_def Let_def

lemmas example_defs = two_requests_def two_clients_def alice_def bob_def echo_def

lemmas more_defs = first_client_reset_def first_client_silent_def narrow_transport_def
  failing_accept_def refuse_empty_def two_enqueued_def queue_client_request_def put_def


section \<open>The claims\<close>

text \<open>
  C1, as the code has it. When the read, the Handler or the write of the request taken from the
  queue raises, the connection is still closed and the entry is marked done, but the error is
  not contained: \<open>try ... finally\<close> has no \<open>except\<close> clause, so \<open>process_requests\<close> ends with
  that error, and the entries behind it stay in the queue.
\<close>

theorem error_leaves_the_loop:
  assumes "items (request_queue self) = (s, a) # rest"
    and "0 < unfinished_tasks (request_queue self)"
    and "fst (process_requests_try h s a
           (display_update self (Processing_request a) (log (Get_call s a) w))) = Raises e"
    and "process_requests h self w = (r, self', w')"
  shows "r = Raises e \<and> \<not> is_open (socks w' s) \<and>
         lifecycle (new_calls w w') = [Get_call s a, Close_call s, Task_done_call] \<and>
         items (request_queue self') = rest"
proof -
  obtain r1 self1 w1 where
    t: "process_requests_turn h (pop self rest) s a (log (Get_call s a) w) = (r1, self1, w1)"
    by (metis prod_cases3)
  have u: "0 < unfinished_tasks (request_queue (pop self rest))"
    using assms(2) by (simp add: pop_def)
  have r1: "r1 = Raises e"
    using process_requests_turn_outcome(1) [OF u t] assms(3) by simp
  then have eq: "(r, self', w') = (r1, self1, w1)"
    using process_requests_step [OF assms(1) t] assms(4) by simp
  have cl: "\<not> is_open (socks w1 s)"
    using process_requests_turn_outcome(3) [OF u t] r1 by simp
  have c: "calls w1 = calls w @ Get_call s a #
             turn_calls h (pop self rest) s a (log (Get_call s a) w)"
    using process_requests_turn_calls [of h "pop self rest" s a "log (Get_call s a) w"] t
    by (simp add: log_def)
  have l: "lifecycle (turn_calls h (pop self rest) s a (log (Get_call s a) w)) =
              [Close_call s, Task_done_call]"
    using lifecycle_turn_calls [OF u, of h s a "log (Get_call s a) w"] assms(3) by simp
  have it: "items (request_queue self1) = rest"
    using process_requests_turn_items [OF t] by (simp add: pop_def)
  show ?thesis
    using eq r1 cl c l it by (simp add: new_calls_append)
qed

theorem error_leaves_the_loop_witness:
  "items (request_queue two_requests) = (0, alice) # [(1, bob)] \<and>
   0 < unfinished_tasks (request_queue two_requests) \<and>
   fst (process_requests_try echo 0 alice
          (display_update two_requests (Processing_request alice)
             (log (Get_call 0 alice) first_client_reset))) = Raises SocketError \<and>
   fst (process_requests echo two_requests first_client_reset) = Raises SocketError \<and>
   items (request_queue (fst (snd (process_requests echo two_requests first_client_reset))))
     = [(1, bob)]"
proof -
  have i: "items (request_queue two_requests) = (0, alice) # [(1, bob)]"
    and u: "0 < unfinished_tasks (request_queue two_requests)"
    by (simp_all add: two_requests_def)
  have t: "fst (process_requests_try echo 0 alice
          (display_update two_requests (Processing_request alice)
             (log (Get_call 0 alice) first_client_reset))) = Raises SocketError"
    by (simp add: run_defs example_defs more_defs)
  have run: "process_requests echo two_requests first_client_reset =
      (fst (process_requests echo two_requests first_client_reset),
       fst (snd (process_requests echo two_requests first_client_reset)),
       snd (snd (process_requests echo two_requests first_client_reset)))"
    by simp
  show ?thesis
    using error_leaves_the_loop [OF i u t run] i u t by simp
qed

text \<open>
  C1 as stated fails: with two connections queued and the first one reset, the loop ends with
  the socket error of the first; the second entry is still in the queue, its socket is open, and
  no call was made on it.
\<close>

theorem loop_ends_at_first_error:
  "fst (process_requests echo two_requests first_client_reset) = Raises SocketError \<and>
   items (request_queue (fst (snd (process_requests echo two_requests first_client_reset))))
     = [(1, bob)] \<and>
   is_open (socks (snd (snd (process_requests echo two_requests first_client_reset))) 1) \<and>
   calls (snd (snd (process_requests echo two_requests first_client_reset)))
     = [Get_call 0 alice, Recv_call 0 1024, Close_call 0, Task_done_call]"
  by (simp add: process_requests_unfold run_defs example_defs more_defs)



text \<open>
  C3, as the code has it. The accept loop of \<open>start\<close> has no \<open>try\<close>: an error raised by
  \<open>accept\<close> ends the loop (and \<open>start\<close>) with that error; the clients that arrive after it are
  not accepted.
\<close>

theorem accept_error_leaves_the_loop:
  assumes "arrivals w = Inl e # rest"
  shows "accept_loop self w = (Raises e, self, w\<lparr>arrivals := rest\<rparr>)"
  using assms by (subst accept_loop.simps) (simp add: sock_accept_def)

theorem accept_error_leaves_the_loop_witness:
  "arrivals failing_accept = Inl SocketError # [Inr (bob, None)] \<and>
   fst (accept_loop (Coordinator ''localhost'' 5000 5 False) failing_accept) = Raises SocketError"
proof -
  have a: "arrivals failing_accept = Inl SocketError # [Inr (bob, None)]"
    by (simp add: failing_accept_def)
  show ?thesis
    using accept_error_leaves_the_loop [OF a, of "Coordinator ''localhost'' 5000 5 False"] a
    by simp
qed

text \<open>
  C3 as stated fails: when the first \<open>accept\<close> raises, \<open>start\<close> raises, the client that arrives
  next is never accepted and the queue stays empty.
\<close>

theorem accept_loop_ends_at_first_error:
  "fst (start (Coordinator ''localhost'' 5000 5 False) failing_accept) = Raises SocketError \<and>
   arrivals (snd (snd (start (Coordinator ''localhost'' 5000 5 False) failing_accept)))
     = [Inr (bob, None)] \<and>
   items (request_queue (fst (snd (start (Coordinator ''localhost'' 5000 5 False) failing_accept))))
     = []"
  by (simp add: start_def sock_socket_def sock_bind_def sock_listen_def sock_accept_def
        accept_loop.simps run_defs example_defs more_defs)

text \<open>
  C4, as the code has it. For requests \<open>rs\<close> put into the queue of a new Coordinator, the Handler
  invocations of \<open>process_requests\<close> are, in order, those of an initial segment of \<open>rs\<close> (strict
  FIFO, each request at most once); when every read, Handler call and write returns, so that
  the loop reaches the empty queue and waits in \<open>get\<close>, the Handler is invoked exactly once for
  every request, in the order of insertion.
\<close>

theorem handler_invocations_follow_queue_order:
  assumes "enqueue_all (Coordinator ho po n d) rs w0 = (self, w)"
    and "process_requests h self w = (r, self', w')"
  shows "prefix (invoked (new_calls w w')) rs \<and>
         (r = Blocks In_get \<longrightarrow> invoked (new_calls w w') = rs \<and> length (handled (new_calls w w')) = length rs)"
proof -
  have "items (request_queue self) = rs"
    using enqueue_all_items [OF assms(1)] by (simp add: Coordinator_def Queue_def)
  then show ?thesis
    using process_requests_invoked [OF assms(2)]
    by (auto simp: new_calls_append) (metis invoked_def length_map)
qed

theorem handler_invocations_follow_queue_order_witness:
  "enqueue_all (Coordinator ''localhost'' 5000 5 False) [(0, alice), (1, bob)] two_clients
     = two_enqueued two_clients \<and>
   fst (process_requests echo (fst (two_enqueued two_clients)) (snd (two_enqueued two_clients)))
     = Blocks In_get \<and>
   invoked (new_calls (snd (two_enqueued two_clients))
      (snd (snd (process_requests echo (fst (two_enqueued two_clients))
                   (snd (two_enqueued two_clients))))))
     = [(0, alice), (1, bob)]"
proof -
  have e: "enqueue_all (Coordinator ''localhost'' 5000 5 False) [(0, alice), (1, bob)] two_clients
     = (fst (two_enqueued two_clients), snd (two_enqueued two_clients))"
    by (simp add: two_enqueued_def)
  have run: "process_requests echo (fst (two_enqueued two_clients)) (snd (two_enqueued two_clients)) =
      (fst (process_requests echo (fst (two_enqueued two_clients)) (snd (two_enqueued two_clients))),
       fst (snd (process_requests echo (fst (two_enqueued two_clients)) (snd (two_enqueued two_clients)))),
       snd (snd (process_requests echo (fst (two_enqueued two_clients)) (snd (two_enqueued two_clients)))))"
    by simp
  have r: "fst (process_requests echo (fst (two_enqueued two_clients)) (snd (two_enqueued two_clients)))
     = Blocks In_get"
    by (simp add: process_requests_unfold run_defs example_defs more_defs)
  show ?thesis
    using handler_invocations_follow_queue_order [OF e run] r
    by (simp add: two_enqueued_def)
qed

text \<open>
  C4 as stated fails: of two requests put into the queue, the Handler is invoked for the first
  only when it raises there; the loop has ended and the second request is never handled.
\<close>

theorem handler_skips_later_requests:
  "fst (process_requests refuse_empty (fst (two_enqueued first_client_silent))
          (snd (two_enqueued first_client_silent))) = Raises OtherError \<and>
   handled (calls (snd (snd (process_requests refuse_empty (fst (two_enqueued first_client_silent))
          (snd (two_enqueued first_client_silent))))))
     = [(0, alice, [])]"
  by (simp add: process_requests_unfold run_defs example_defs more_defs)

text \<open>
  C5. The turn of the loop reads once with a buffer of 1024 bytes, calls the Handler once and
  passes the response to one \<open>send\<close>, then closes. \<open>send\<close> is not \<open>sendall\<close>: when the transport
  takes only one byte, the response \<open>[104, 105]\<close> of the echo Handler is cut to \<open>[104]\<close>, the
  count that \<open>send\<close> returns is ignored and the connection is closed.
\<close>

theorem response_cut_short:
  "fst (process_requests_turn echo (pop two_requests [(1, bob)]) 0 alice narrow_transport)
     = Returns () \<and>
   calls (snd (snd (process_requests_turn echo (pop two_requests [(1, bob)]) 0 alice
                      narrow_transport)))
     = [Recv_call 0 1024, Handler_call 0 alice [104, 105], Send_call 0 [104, 105],
        Close_call 0, Task_done_call] \<and>
   outbox (socks (snd (snd (process_requests_turn echo (pop two_requests [(1, bob)]) 0 alice
                      narrow_transport))) 0)
     = [104]"
  by (simp add: run_defs example_defs more_defs)

text \<open>
  C7. \<open>query_coordinator\<close> on a connected Worker never raises, and when \<open>send\<close> or \<open>recv\<close>
  raises a socket error it returns the empty byte string.
\<close>

theorem query_coordinator_socket_error:
  assumes "client_socket self = Some s"
  shows "(\<forall>e. fst (query_coordinator others self data w) \<noteq> Raises e) \<and>
         ((\<exists>e. fst (sock_send s data (worker_display_update self Querying w)) = Raises e) \<longrightarrow>
            fst (query_coordinator others self data w) = Returns []) \<and>
         (\<forall>n w2. sock_send s data (worker_display_update self Querying w) = (Returns n, w2) \<and>
            (\<exists>e. fst (sock_recv s 1024 (others (worker_display_update self Waiting_for_response w2)))
                    = Raises e) \<longrightarrow>
            fst (query_coordinator others self data w) = Returns [])"
proof -
  have sr: "\<And>d v e v'. sock_send s d v = (Raises e, v') \<Longrightarrow> e = SocketError"
    by (auto simp: sock_send_def Let_def split: if_splits)
  have rr: "\<And>n v e v'. sock_recv s n v = (Raises e, v') \<Longrightarrow> e = SocketError"
    by (auto simp: sock_recv_def Let_def split: if_splits)
  show ?thesis
    using assms
    by (auto simp: query_coordinator_def query_coordinator_try_def Let_def
             split: prod.splits outcome.splits exn.splits dest: sr rr)
qed

theorem query_coordinator_socket_error_witness:
  "client_socket reset_worker = Some 0 \<and>
   fst (sock_send 0 [104, 105] (worker_display_update reset_worker Querying reset_connection))
     = Raises SocketError \<and>
   fst (query_coordinator id reset_worker [104, 105] reset_connection) = Returns []"
  using query_coordinator_socket_error [of reset_worker 0 id "[104, 105]" reset_connection]
  by (simp add: reset_worker_def Worker_def reset_connection_def sock_send_def
        worker_display_update_def log_def new_sock_def Let_def)








end
